theory Spec2Isabelle
  imports Main "HOL-Library.Sublist" "HOL-Library.Multiset"
begin

section \<open>Data model\<close>

text \<open>
  A note as the application passes it around: \<^verbatim>\<open>{ id, note, person, createdAt }\<close>.
  The field \<^verbatim>\<open>note\<close> is called \<open>ntext\<close> and \<^verbatim>\<open>id\<close> is called \<open>nid\<close> here
  (both names are taken in Isabelle).  The representation of identifiers (\<open>'i\<close>) and of
  timestamps (\<open>'t\<close>) is left open: the table declares \<^verbatim>\<open>id bigint\<close> and
  \<^verbatim>\<open>created_at timestamp with time zone\<close>, the clients see a \<^verbatim>\<open>number\<close> and whatever
  the transport hands over for the timestamp.
\<close>

record ('i, 't) Note =
  nid :: 'i
  ntext :: string
  person :: string
  createdAt :: 't

section \<open>Strings of the host language\<close>

text \<open>
  \<^verbatim>\<open>s.split(' ')\<close> with a one-character separator: the pieces between the separators, empty
  pieces included; the empty string gives the one-element list holding the empty string.
\<close>

fun str_split :: "char \<Rightarrow> string \<Rightarrow> string list" where
  "str_split c [] = [[]]"
| "str_split c (x # xs) =
     (if x = c then [] # str_split c xs
      else (case str_split c xs of
              [] \<Rightarrow> [[x]]
            | w # ws \<Rightarrow> (x # w) # ws))"

text \<open>\<^verbatim>\<open>s.includes(t)\<close>: does \<open>t\<close> occur in \<open>s\<close> as a contiguous piece.\<close>

fun startsWith :: "string \<Rightarrow> string \<Rightarrow> bool" where
  "startsWith s [] = True"
| "startsWith [] (y # ys) = False"
| "startsWith (x # xs) (y # ys) = (x = y \<and> startsWith xs ys)"

fun str_includes :: "string \<Rightarrow> string \<Rightarrow> bool" where
  "str_includes [] t = (t = [])"
| "str_includes (x # xs) t = (startsWith (x # xs) t \<or> str_includes xs t)"

text \<open>\<^verbatim>\<open>xs.every(p)\<close> is \<^const>\<open>list_all\<close>, \<^verbatim>\<open>xs.filter(p)\<close> is \<^const>\<open>filter\<close>.\<close>

section \<open>Client-side filtering\<close>

text \<open>
  Both clients compute the search terms in the same way:
  \<^verbatim>\<open>term.toLowerCase().split(' ').filter(t => t)\<close>.
  The built-ins \<^verbatim>\<open>toLowerCase\<close> and \<^verbatim>\<open>new Date(_).toLocaleDateString()\<close> depend on the
  runtime and its locale; they are parameters of the model.
\<close>

definition searchTerms :: "(string \<Rightarrow> string) \<Rightarrow> string \<Rightarrow> string list" where
  "searchTerms toLowerCase term = filter (\<lambda>t. t \<noteq> []) (str_split CHR '' '' (toLowerCase term))"

text \<open>The stream-based client, \<^verbatim>\<open>NoteDataClient.filterNotes(notes, term)\<close>.\<close>

definition filterNotes ::
  "(string \<Rightarrow> string) \<Rightarrow> ('t \<Rightarrow> string) \<Rightarrow> ('i, 't) Note list \<Rightarrow> string \<Rightarrow> ('i, 't) Note list" where
  "filterNotes toLowerCase toLocaleDateString notes term =
     (if term = [] then notes
      else
        (let searchTerms = searchTerms toLowerCase term
         in filter (\<lambda>note.
              (let noteContent = toLowerCase (ntext note);
                   noteDate = toLowerCase (toLocaleDateString (createdAt note))
               in list_all (\<lambda>term. str_includes noteContent term \<or> str_includes noteDate term) searchTerms))
            notes))"

text \<open>
  The signal-based client, the computed signal \<^verbatim>\<open>filteredNotes\<close>, as a function of the two
  signals it reads (\<^verbatim>\<open>notes()\<close> and \<^verbatim>\<open>filterText()\<close>).
\<close>

definition filteredNotes ::
  "(string \<Rightarrow> string) \<Rightarrow> ('t \<Rightarrow> string) \<Rightarrow> ('i, 't) Note list \<Rightarrow> string \<Rightarrow> ('i, 't) Note list" where
  "filteredNotes toLowerCase toLocaleDateString notes filterText =
     (let searchTerms = searchTerms toLowerCase filterText
      in if length searchTerms = 0 then notes
         else filter (\<lambda>item.
                (let lowerItem = toLowerCase (ntext item) @ '' '' @
                                 toLowerCase (toLocaleDateString (createdAt item))
                 in list_all (\<lambda>term. str_includes lowerItem term) searchTerms))
              notes)"

text \<open>
  The matching condition in the words of the specification: every search term occurs as a
  substring of the lowercased text or of the lowercased date string.
\<close>

definition matches ::
  "(string \<Rightarrow> string) \<Rightarrow> ('t \<Rightarrow> string) \<Rightarrow> string list \<Rightarrow> ('i, 't) Note \<Rightarrow> bool" where
  "matches toLowerCase toLocaleDateString terms n =
     (\<forall>t \<in> set terms. sublist t (toLowerCase (ntext n))
                   \<or> sublist t (toLowerCase (toLocaleDateString (createdAt n))))"

text \<open>An ASCII lowercasing, used to run the filters on concrete inputs.\<close>

definition asciiLowerChar :: "char \<Rightarrow> char" where
  "asciiLowerChar c =
     (case c of Char b0 b1 b2 b3 b4 b5 b6 b7 \<Rightarrow>
        if 65 \<le> (of_char c :: nat) \<and> (of_char c :: nat) \<le> 90
        then Char b0 b1 b2 b3 b4 True b6 b7 else c)"

definition asciiLower :: "string \<Rightarrow> string" where
  "asciiLower = map asciiLowerChar"

text \<open>Two notes for running the functions on concrete inputs.\<close>

definition example_note1 :: "(nat, string) Note" where
  "example_note1 =
     \<lparr>nid = 1, ntext = ''Buy Milk'', person = ''bob'', createdAt = ''11/2/2026''\<rparr>"

definition example_note2 :: "(nat, string) Note" where
  "example_note2 =
     \<lparr>nid = 2, ntext = ''Call mum'', person = ''ann'', createdAt = ''11/3/2026''\<rparr>"

section \<open>The server: the note router over the note table\<close>

text \<open>
  The table \<^verbatim>\<open>note\<close> is a list of rows in storage order.  \<^verbatim>\<open>where(eq(column, v))\<close> keeps
  the rows whose column equals \<open>v\<close>; \<^verbatim>\<open>returning()\<close> hands back the rows the statement
  touched.  A mutation returns the new table together with its result.

  The input validator of \<^verbatim>\<open>list\<close> (\<^verbatim>\<open>z.string()\<close>) lets every string through, but the
  database does not take every string: its text values cannot hold the character U+0000, and
  a statement with a text parameter that contains it is rejected.  The procedure then throws,
  which the transport reports as \<^verbatim>\<open>INTERNAL_SERVER_ERROR\<close>.
\<close>

datatype trpc_error = INTERNAL_SERVER_ERROR

text \<open>
  \<^verbatim>\<open>list\<close>: select the rows of a person, then \<^verbatim>\<open>{ ...note, id: +note.id }\<close> on each.
  The unary plus is the host language's conversion to \<^verbatim>\<open>number\<close>; it is the parameter
  \<open>toNumber\<close>.
\<close>

definition noteRouter_list ::
  "('i \<Rightarrow> 'n) \<Rightarrow> ('i, 't) Note list \<Rightarrow> string \<Rightarrow> trpc_error + ('n, 't) Note list" where
  "noteRouter_list toNumber db input_person =
     (if CHR 0x00 \<in> set input_person then Inl INTERNAL_SERVER_ERROR
      else
        (let selectedNotes = filter (\<lambda>n. person n = input_person) db
         in Inr (map (\<lambda>n. \<lparr>nid = toNumber (nid n), ntext = ntext n, person = person n,
                            createdAt = createdAt n\<rparr>) selectedNotes)))"

text \<open>\<^verbatim>\<open>remove\<close>: delete the rows whose id equals the input, returning them.\<close>

definition noteRouter_remove ::
  "('i, 't) Note list \<Rightarrow> 'i \<Rightarrow> ('i, 't) Note list \<times> ('i, 't) Note list" where
  "noteRouter_remove db input_id =
     (filter (\<lambda>n. nid n \<noteq> input_id) db, filter (\<lambda>n. nid n = input_id) db)"

section \<open>What happens to a client\<close>

text \<open>
  The requests a client hands to the transport, and the events a client instance reacts to:
  the calls of its interface, the outcome of the request that is in flight in one of its
  pipelines, the passing of time, and the teardown of its component.
\<close>

datatype 'i request = ListReq string | CreateReq string string | RemoveReq 'i

datatype ('i, 't) event =
    SetUsername string
  | LoadNotes
  | AddNote string
  | DeleteNote 'i
  | SetFilterTerm string
  | ListOk "('i, 't) Note list"
  | ListErr string
  | CreateOk
  | CreateErr string
  | RemoveOk
  | RemoveErr string
  | Elapse nat
  | Destroy





section \<open>The stream-based client\<close>

text \<open>
  The state of one \<^verbatim>\<open>NoteDataClient\<close> of the stream-based page.  The behaviour subjects are
  fields holding their current value.  Each of the three effect pipelines
  (\<^verbatim>\<open>subject.pipe(tap, withLatestFrom, switchMap, takeUntil).subscribe({next, error})\<close>) is
  described by two fields: whether its subscription is still open, and the request that is
  in flight inside its \<^verbatim>\<open>switchMap\<close> (at most one: a new emission unsubscribes from the
  previous inner call).  A subject with no open subscription drops what is sent to it.  An
  error of the inner call reaches the \<^verbatim>\<open>error\<close> callback and closes the subscription;
  \<^verbatim>\<open>takeUntil(_destroy$)\<close> closes it on teardown.  A remote call answers once.

  \<open>rx_refreshTimer\<close> is the timeout that \<^verbatim>\<open>_refreshTimer\<close> refers to, while it is pending,
  with the milliseconds left; \<open>rx_sent\<close> records the requests handed to the transport,
  oldest first.
\<close>

record ('i, 't) rx_state =
  rx_username :: string
  rx_notes :: "('i, 't) Note list"
  rx_loading :: bool
  rx_error :: "string option"
  rx_filterTerm :: string
  rx_showRefresh :: bool
  rx_refreshTimer :: "nat option"
  rx_loadSub :: bool
  rx_addSub :: bool
  rx_removeSub :: bool
  rx_usernameSub :: bool
  rx_loadReq :: "string option"
  rx_addReq :: "(string \<times> string) option"
  rx_removeReq :: "'i option"
  rx_sent :: "'i request list"

definition setLoading :: "bool \<Rightarrow> ('i, 't) rx_state \<Rightarrow> ('i, 't) rx_state" where
  "setLoading isLoading s =
     (let s1 = s\<lparr>rx_loading := isLoading\<rparr>
      in if isLoading then s1\<lparr>rx_error := None\<rparr> else s1)"

definition resetRefreshTimer :: "('i, 't) rx_state \<Rightarrow> ('i, 't) rx_state" where
  "resetRefreshTimer s = s\<lparr>rx_refreshTimer := Some 4000, rx_showRefresh := False\<rparr>"

text \<open>
  \<^verbatim>\<open>loadNotes()\<close>, that is \<^verbatim>\<open>_loadNotes$.next()\<close>: if the load pipeline is subscribed, its
  \<^verbatim>\<open>tap\<close> runs and \<^verbatim>\<open>switchMap\<close> replaces the request in flight by a list query for the
  latest username.
\<close>

definition rx_loadNotes :: "('i, 't) rx_state \<Rightarrow> ('i, 't) rx_state" where
  "rx_loadNotes s =
     (if rx_loadSub s
      then (let s1 = setLoading True s
            in s1\<lparr>rx_loadReq := Some (rx_username s1),
                  rx_sent := rx_sent s1 @ [ListReq (rx_username s1)]\<rparr>)
      else s)"

text \<open>
  \<^verbatim>\<open>setUsername\<close>: \<^verbatim>\<open>username$.next(username)\<close> reaches the constructor's subscription to
  \<^verbatim>\<open>username$\<close>, which sends to \<^verbatim>\<open>_loadNotes$\<close>; then \<^verbatim>\<open>this.loadNotes()\<close> sends again.
\<close>

definition rx_setUsername :: "string \<Rightarrow> ('i, 't) rx_state \<Rightarrow> ('i, 't) rx_state" where
  "rx_setUsername username s =
     (let s1 = s\<lparr>rx_username := username\<rparr>;
          s2 = (if rx_usernameSub s1 then rx_loadNotes s1 else s1)
      in rx_loadNotes s2)"

definition rx_addNote :: "string \<Rightarrow> ('i, 't) rx_state \<Rightarrow> ('i, 't) rx_state" where
  "rx_addNote noteText s =
     (if rx_addSub s
      then (let s1 = setLoading True s
            in s1\<lparr>rx_addReq := Some (noteText, rx_username s1),
                  rx_sent := rx_sent s1 @ [CreateReq noteText (rx_username s1)]\<rparr>)
      else s)"

definition rx_deleteNote :: "'i \<Rightarrow> ('i, 't) rx_state \<Rightarrow> ('i, 't) rx_state" where
  "rx_deleteNote i s =
     (if rx_removeSub s
      then (let s1 = setLoading True s
            in s1\<lparr>rx_removeReq := Some i, rx_sent := rx_sent s1 @ [RemoveReq i]\<rparr>)
      else s)"

definition rx_setFilterTerm :: "string \<Rightarrow> ('i, 't) rx_state \<Rightarrow> ('i, 't) rx_state" where
  "rx_setFilterTerm term s = s\<lparr>rx_filterTerm := term\<rparr>"

text \<open>The \<^verbatim>\<open>next\<close> and \<^verbatim>\<open>error\<close> callbacks of the three subscriptions.\<close>

definition rx_load_next :: "('i, 't) Note list \<Rightarrow> ('i, 't) rx_state \<Rightarrow> ('i, 't) rx_state" where
  "rx_load_next notes s = resetRefreshTimer (setLoading False (s\<lparr>rx_notes := notes\<rparr>))"

definition rx_load_error :: "string \<Rightarrow> ('i, 't) rx_state \<Rightarrow> ('i, 't) rx_state" where
  "rx_load_error message s = (setLoading False s)\<lparr>rx_error := Some message\<rparr>"

definition rx_add_next :: "('i, 't) rx_state \<Rightarrow> ('i, 't) rx_state" where
  "rx_add_next s = setLoading False (rx_loadNotes s)"

definition rx_add_error :: "string \<Rightarrow> ('i, 't) rx_state \<Rightarrow> ('i, 't) rx_state" where
  "rx_add_error message s = (setLoading False s)\<lparr>rx_error := Some message\<rparr>"

definition rx_remove_next :: "('i, 't) rx_state \<Rightarrow> ('i, 't) rx_state" where
  "rx_remove_next s = setLoading False (rx_loadNotes s)"

definition rx_remove_error :: "string \<Rightarrow> ('i, 't) rx_state \<Rightarrow> ('i, 't) rx_state" where
  "rx_remove_error message s = (setLoading False s)\<lparr>rx_error := Some message\<rparr>"

text \<open>
  \<^verbatim>\<open>ngOnDestroy\<close>: \<^verbatim>\<open>clearTimeout(this._refreshTimer)\<close>, then \<^verbatim>\<open>_destroy$\<close> fires and every
  \<^verbatim>\<open>takeUntil\<close> closes its subscription, unsubscribing from the call in flight.
\<close>

definition rx_ngOnDestroy :: "('i, 't) rx_state \<Rightarrow> ('i, 't) rx_state" where
  "rx_ngOnDestroy s =
     s\<lparr>rx_refreshTimer := None,
       rx_loadSub := False, rx_addSub := False, rx_removeSub := False, rx_usernameSub := False,
       rx_loadReq := None, rx_addReq := None, rx_removeReq := None\<rparr>"

text \<open>
  The passing of \<open>d\<close> milliseconds: a pending timeout that is due runs its callback
  \<^verbatim>\<open>() => this.showRefresh$.next(true)\<close> and is pending no longer.
\<close>

definition rx_elapse :: "nat \<Rightarrow> ('i, 't) rx_state \<Rightarrow> ('i, 't) rx_state" where
  "rx_elapse d s =
     (case rx_refreshTimer s of
        None \<Rightarrow> s
      | Some r \<Rightarrow> if r \<le> d then s\<lparr>rx_showRefresh := True, rx_refreshTimer := None\<rparr>
                  else s\<lparr>rx_refreshTimer := Some (r - d)\<rparr>)"

text \<open>
  One event.  An outcome is delivered to the pipeline only while its request is in flight;
  a successful outcome ends the inner call, a failed one also closes the subscription.
\<close>

fun rx_step :: "('i, 't) rx_state \<Rightarrow> ('i, 't) event \<Rightarrow> ('i, 't) rx_state" where
  "rx_step s (SetUsername u) = rx_setUsername u s"
| "rx_step s LoadNotes = rx_loadNotes s"
| "rx_step s (AddNote n) = rx_addNote n s"
| "rx_step s (DeleteNote i) = rx_deleteNote i s"
| "rx_step s (SetFilterTerm t) = rx_setFilterTerm t s"
| "rx_step s (ListOk ns) =
     (if rx_loadReq s = None then s else rx_load_next ns (s\<lparr>rx_loadReq := None\<rparr>))"
| "rx_step s (ListErr m) =
     (if rx_loadReq s = None then s
      else rx_load_error m (s\<lparr>rx_loadReq := None, rx_loadSub := False\<rparr>))"
| "rx_step s CreateOk =
     (if rx_addReq s = None then s else rx_add_next (s\<lparr>rx_addReq := None\<rparr>))"
| "rx_step s (CreateErr m) =
     (if rx_addReq s = None then s
      else rx_add_error m (s\<lparr>rx_addReq := None, rx_addSub := False\<rparr>))"
| "rx_step s RemoveOk =
     (if rx_removeReq s = None then s else rx_remove_next (s\<lparr>rx_removeReq := None\<rparr>))"
| "rx_step s (RemoveErr m) =
     (if rx_removeReq s = None then s
      else rx_remove_error m (s\<lparr>rx_removeReq := None, rx_removeSub := False\<rparr>))"
| "rx_step s (Elapse d) = rx_elapse d s"
| "rx_step s Destroy = rx_ngOnDestroy s"

text \<open>
  The constructor: the field initialisers, the three subscriptions, and the subscription to
  \<^verbatim>\<open>username$\<close>, which as a behaviour subject emits its current value at once and so sends
  the first load.
\<close>

definition rx_constructor :: "('i, 't) rx_state" where
  "rx_constructor =
     rx_loadNotes
       \<lparr>rx_username = [], rx_notes = [], rx_loading = False, rx_error = None,
        rx_filterTerm = [], rx_showRefresh = False, rx_refreshTimer = None,
        rx_loadSub = True, rx_addSub = True, rx_removeSub = True, rx_usernameSub = True,
        rx_loadReq = None, rx_addReq = None, rx_removeReq = None, rx_sent = []\<rparr>"

definition rx_run :: "('i, 't) event list \<Rightarrow> ('i, 't) rx_state" where
  "rx_run es = foldl rx_step rx_constructor es"

section \<open>The signal-based client\<close>

text \<open>
  The notes come from a resource (\<^verbatim>\<open>rxResource({request, loader})\<close>) of the framework.  What
  the model takes from the framework:
  \<^item> the resource has a status, a value (\<^verbatim>\<open>undefined\<close> unless resolved or reloading a
    resolved value), an error, and at most one load in progress;
  \<^item> when the request changes (here: the username signal takes a different value) the load
    in progress is abandoned and a new load starts, with status \<^verbatim>\<open>Loading\<close>;
  \<^item> \<^verbatim>\<open>reload()\<close> does nothing while the status is \<^verbatim>\<open>Idle\<close>, \<^verbatim>\<open>Loading\<close> or
    \<^verbatim>\<open>Reloading\<close>; otherwise it starts a load with status \<^verbatim>\<open>Reloading\<close>, keeping the value;
  \<^item> a load that succeeds gives status \<^verbatim>\<open>Resolved\<close> and the value; a load that fails gives
    status \<^verbatim>\<open>Error\<close>, the error, and no value; the resource does not load again by itself;
  \<^item> when the injector that owns the client is destroyed, the resource abandons its load
    and becomes \<^verbatim>\<open>Idle\<close>.
\<close>

datatype ResourceStatus = Idle | Error | Loading | Reloading | Resolved | Local

text \<open>
  The state of one \<^verbatim>\<open>NoteDataClient\<close> of the signal-based page: its writable signals, the
  resource, the two subject pipelines (as in the stream-based client), and the linked signal
  \<^verbatim>\<open>showRefresh\<close>, which holds a value and the source value (the resource status) it was
  last computed from.  \<open>timerId\<close> is the timeout that the field \<^verbatim>\<open>timerId\<close> refers to,
  while it is pending, with the milliseconds left (\<open>None\<close> for \<^verbatim>\<open>0\<close>).
\<close>

record ('i, 't) sg_state =
  sg_username :: string
  sg_filterText :: string
  res_status :: ResourceStatus
  res_value :: "('i, 't) Note list option"
  res_error :: "string option"
  res_req :: "string option"
  loadingDelete :: bool
  errorDelete :: "string option"
  loadingCreate :: bool
  errorCreate :: "string option"
  sg_addSub :: bool
  sg_removeSub :: bool
  sg_addReq :: "(string \<times> string) option"
  sg_removeReq :: "'i option"
  timerId :: "nat option"
  showRefresh_value :: bool
  showRefresh_source :: "ResourceStatus option"
  sg_destroyed :: bool
  sg_sent :: "'i request list"

text \<open>The computed signals \<^verbatim>\<open>notes\<close>, \<^verbatim>\<open>totalNotesCount\<close>, \<^verbatim>\<open>loading\<close> and \<^verbatim>\<open>error\<close>.\<close>

definition sg_notes :: "('i, 't) sg_state \<Rightarrow> ('i, 't) Note list" where
  "sg_notes s = (case res_value s of None \<Rightarrow> [] | Some v \<Rightarrow> v)"

definition sg_totalNotesCount :: "('i, 't) sg_state \<Rightarrow> nat" where
  "sg_totalNotesCount s = length (sg_notes s)"

definition sg_isLoading :: "('i, 't) sg_state \<Rightarrow> bool" where
  "sg_isLoading s = (res_status s = Loading \<or> res_status s = Reloading)"

definition sg_loading :: "('i, 't) sg_state \<Rightarrow> bool" where
  "sg_loading s = (sg_isLoading s \<or> loadingDelete s \<or> loadingCreate s)"



definition sg_filteredNotes ::
  "(string \<Rightarrow> string) \<Rightarrow> ('t \<Rightarrow> string) \<Rightarrow> ('i, 't) sg_state \<Rightarrow> ('i, 't) Note list" where
  "sg_filteredNotes toLowerCase toLocaleDateString s =
     filteredNotes toLowerCase toLocaleDateString (sg_notes s) (sg_filterText s)"

text \<open>
  The linked signal \<^verbatim>\<open>showRefresh\<close>.  Its computation runs when the signal is read and its
  source has changed since the last computation: it clears the timeout the field refers to,
  starts one of 4000 ms if the status is \<^verbatim>\<open>Resolved\<close>, and gives \<^verbatim>\<open>false\<close>.
\<close>

definition showRefresh_computation ::
  "ResourceStatus \<Rightarrow> ('i, 't) sg_state \<Rightarrow> ('i, 't) sg_state" where
  "showRefresh_computation status s =
     (let s1 = (if timerId s \<noteq> None then s\<lparr>timerId := None\<rparr> else s);
          s2 = (if status = Resolved then s1\<lparr>timerId := Some 4000\<rparr> else s1)
      in s2\<lparr>showRefresh_value := False, showRefresh_source := Some status\<rparr>)"

definition showRefresh_update :: "('i, 't) sg_state \<Rightarrow> ('i, 't) sg_state" where
  "showRefresh_update s =
     (if showRefresh_source s = Some (res_status s) then s
      else showRefresh_computation (res_status s) s)"

definition showRefresh :: "('i, 't) sg_state \<Rightarrow> bool" where
  "showRefresh s = showRefresh_value (showRefresh_update s)"

text \<open>
  The timeout's callback: \<^verbatim>\<open>this.showRefresh.set(true); this.timerId = 0\<close>.  Setting a
  linked signal brings it up to date first.
\<close>

definition sg_timeout :: "('i, 't) sg_state \<Rightarrow> ('i, 't) sg_state" where
  "sg_timeout s = ((showRefresh_update s)\<lparr>showRefresh_value := True\<rparr>)\<lparr>timerId := None\<rparr>"

text \<open>The resource: a new load for a changed request, \<^verbatim>\<open>reload()\<close>, and teardown.\<close>

definition resource_load :: "string \<Rightarrow> ('i, 't) sg_state \<Rightarrow> ('i, 't) sg_state" where
  "resource_load username s =
     s\<lparr>res_status := Loading, res_value := None, res_error := None,
       res_req := Some username, sg_sent := sg_sent s @ [ListReq username]\<rparr>"

definition resource_reload :: "('i, 't) sg_state \<Rightarrow> ('i, 't) sg_state" where
  "resource_reload s =
     (if res_status s = Idle \<or> res_status s = Loading \<or> res_status s = Reloading then s
      else s\<lparr>res_status := Reloading, res_error := None,
             res_req := Some (sg_username s),
             sg_sent := sg_sent s @ [ListReq (sg_username s)]\<rparr>)"

definition resource_destroy :: "('i, 't) sg_state \<Rightarrow> ('i, 't) sg_state" where
  "resource_destroy s =
     s\<lparr>res_status := Idle, res_value := None, res_error := None, res_req := None\<rparr>"

text \<open>The methods of the client.\<close>

definition sg_setUsername :: "string \<Rightarrow> ('i, 't) sg_state \<Rightarrow> ('i, 't) sg_state" where
  "sg_setUsername username s =
     (if username = sg_username s then s
      else (let s1 = s\<lparr>sg_username := username\<rparr>
            in if sg_destroyed s1 then s1 else resource_load username s1))"

definition sg_loadNotes :: "('i, 't) sg_state \<Rightarrow> ('i, 't) sg_state" where
  "sg_loadNotes s = resource_reload s"

definition sg_addNote :: "string \<Rightarrow> ('i, 't) sg_state \<Rightarrow> ('i, 't) sg_state" where
  "sg_addNote noteText s =
     (if sg_addSub s
      then s\<lparr>loadingCreate := True, errorCreate := None,
             sg_addReq := Some (noteText, sg_username s),
             sg_sent := sg_sent s @ [CreateReq noteText (sg_username s)]\<rparr>
      else s)"

definition sg_deleteNote :: "'i \<Rightarrow> ('i, 't) sg_state \<Rightarrow> ('i, 't) sg_state" where
  "sg_deleteNote i s =
     (if sg_removeSub s
      then s\<lparr>loadingDelete := True, errorDelete := None,
             sg_removeReq := Some i, sg_sent := sg_sent s @ [RemoveReq i]\<rparr>
      else s)"

definition sg_setFilterTerm :: "string \<Rightarrow> ('i, 't) sg_state \<Rightarrow> ('i, 't) sg_state" where
  "sg_setFilterTerm term s = s\<lparr>sg_filterText := term\<rparr>"

text \<open>The callbacks of the two subscriptions in the constructor.\<close>

definition sg_add_next :: "('i, 't) sg_state \<Rightarrow> ('i, 't) sg_state" where
  "sg_add_next s = (sg_loadNotes s)\<lparr>loadingCreate := False\<rparr>"

definition sg_add_error :: "string \<Rightarrow> ('i, 't) sg_state \<Rightarrow> ('i, 't) sg_state" where
  "sg_add_error message s = s\<lparr>errorCreate := Some message\<rparr>"

definition sg_remove_next :: "('i, 't) sg_state \<Rightarrow> ('i, 't) sg_state" where
  "sg_remove_next s = (sg_loadNotes s)\<lparr>loadingDelete := False\<rparr>"

definition sg_remove_error :: "string \<Rightarrow> ('i, 't) sg_state \<Rightarrow> ('i, 't) sg_state" where
  "sg_remove_error message s = s\<lparr>errorDelete := Some message\<rparr>"

text \<open>
  \<^verbatim>\<open>ngOnDestroy\<close>: \<^verbatim>\<open>_destroy$\<close> fires and closes both subscriptions; the resource is torn
  down with the injector.  Nothing here touches the timeout.
\<close>

definition sg_ngOnDestroy :: "('i, 't) sg_state \<Rightarrow> ('i, 't) sg_state" where
  "sg_ngOnDestroy s =
     resource_destroy
       (s\<lparr>sg_addSub := False, sg_removeSub := False, sg_addReq := None, sg_removeReq := None,
          sg_destroyed := True\<rparr>)"

definition sg_elapse :: "nat \<Rightarrow> ('i, 't) sg_state \<Rightarrow> ('i, 't) sg_state" where
  "sg_elapse d s =
     (case timerId s of
        None \<Rightarrow> s
      | Some r \<Rightarrow> if r \<le> d then sg_timeout s else s\<lparr>timerId := Some (r - d)\<rparr>)"

fun sg_handle :: "('i, 't) sg_state \<Rightarrow> ('i, 't) event \<Rightarrow> ('i, 't) sg_state" where
  "sg_handle s (SetUsername u) = sg_setUsername u s"
| "sg_handle s LoadNotes = sg_loadNotes s"
| "sg_handle s (AddNote n) = sg_addNote n s"
| "sg_handle s (DeleteNote i) = sg_deleteNote i s"
| "sg_handle s (SetFilterTerm t) = sg_setFilterTerm t s"
| "sg_handle s (ListOk ns) =
     (if res_req s = None then s
      else s\<lparr>res_status := Resolved, res_value := Some ns, res_error := None, res_req := None\<rparr>)"
| "sg_handle s (ListErr m) =
     (if res_req s = None then s
      else s\<lparr>res_status := Error, res_value := None, res_error := Some m, res_req := None\<rparr>)"
| "sg_handle s CreateOk =
     (if sg_addReq s = None then s else sg_add_next (s\<lparr>sg_addReq := None\<rparr>))"
| "sg_handle s (CreateErr m) =
     (if sg_addReq s = None then s
      else sg_add_error m (s\<lparr>sg_addReq := None, sg_addSub := False\<rparr>))"
| "sg_handle s RemoveOk =
     (if sg_removeReq s = None then s else sg_remove_next (s\<lparr>sg_removeReq := None\<rparr>))"
| "sg_handle s (RemoveErr m) =
     (if sg_removeReq s = None then s
      else sg_remove_error m (s\<lparr>sg_removeReq := None, sg_removeSub := False\<rparr>))"
| "sg_handle s (Elapse d) = sg_elapse d s"
| "sg_handle s Destroy = sg_ngOnDestroy s"

text \<open>
  After each event the view, while it exists, is rendered again and reads
  \<^verbatim>\<open>showRefresh()\<close> in its template; a destroyed view reads nothing.
\<close>

definition sg_render :: "('i, 't) sg_state \<Rightarrow> ('i, 't) sg_state" where
  "sg_render s = (if sg_destroyed s then s else showRefresh_update s)"

definition sg_step :: "('i, 't) sg_state \<Rightarrow> ('i, 't) event \<Rightarrow> ('i, 't) sg_state" where
  "sg_step s e = sg_render (sg_handle s e)"

text \<open>
  The field initialisers, the first load of the resource (for the initial username), the
  two subscriptions, and the first rendering.
\<close>

definition sg_constructor :: "('i, 't) sg_state" where
  "sg_constructor =
     sg_render
       (resource_load []
          \<lparr>sg_username = [], sg_filterText = [],
           res_status = Idle, res_value = None, res_error = None, res_req = None,
           loadingDelete = False, errorDelete = None, loadingCreate = False, errorCreate = None,
           sg_addSub = True, sg_removeSub = True, sg_addReq = None, sg_removeReq = None,
           timerId = None, showRefresh_value = False, showRefresh_source = None,
           sg_destroyed = False, sg_sent = []\<rparr>)"

definition sg_run :: "('i, 't) event list \<Rightarrow> ('i, 't) sg_state" where
  "sg_run es = foldl sg_step sg_constructor es"

section \<open>Properties of the string functions\<close>

lemma startsWith_prefix: "startsWith s t = prefix t s"
  by (induction s t rule: startsWith.induct) auto

lemma includes_sublist: "str_includes s t = sublist t s"
  by (induction s) (simp_all add: startsWith_prefix sublist_Cons_right)

lemma split_not_Nil: "str_split c s \<noteq> []"
  by (induction s) (simp_all split: list.splits)

lemma split_no_separator: "w \<in> set (str_split c s) \<Longrightarrow> c \<notin> set w"
  by (induction s arbitrary: w) (auto split: if_splits list.splits)

lemma searchTerms_no_space: "t \<in> set (searchTerms lc term) \<Longrightarrow> CHR '' '' \<notin> set t"
  by (auto simp: searchTerms_def dest: split_no_separator)

lemma searchTerms_empty_term: "lc [] = [] \<Longrightarrow> searchTerms lc [] = []"
  by (simp add: searchTerms_def)

lemma prefix_without_separator: "c \<notin> set t \<Longrightarrow> prefix t (c # b) \<Longrightarrow> t = []"
  by (cases t) auto

text \<open>
  A string that does not contain the separator occurs in \<open>a @ c # b\<close> only inside \<open>a\<close> or
  inside \<open>b\<close>: an occurrence across the separator would contain it.
\<close>

lemma sublist_separated:
  assumes "c \<notin> set t"
  shows "sublist t (a @ c # b) \<longleftrightarrow> sublist t a \<or> sublist t b"
proof
  assume "sublist t (a @ c # b)"
  then consider "sublist t a" | "sublist t (c # b)"
    | u v where "t = u @ v" "suffix u a" "prefix v (c # b)"
    by (auto simp: sublist_append)
  then show "sublist t a \<or> sublist t b"
  proof cases
    case 1
    then show ?thesis by simp
  next
    case 2
    then have "prefix t (c # b) \<or> sublist t b" by (simp add: sublist_Cons_right)
    with assms show ?thesis using prefix_without_separator by fastforce
  next
    case 3
    from 3(1) assms have "c \<notin> set v" by simp
    then have "v = []" using 3(3) by (rule prefix_without_separator)
    with 3(1,2) show ?thesis by (auto simp: sublist_altdef)
  qed
next
  assume "sublist t a \<or> sublist t b"
  then show "sublist t (a @ c # b)"
    by (auto simp: sublist_append sublist_Cons_right)
qed

section \<open>Client-side filtering: both clients keep exactly the matching notes\<close>

lemma matches_Nil: "matches lc d [] n"
  by (simp add: matches_def)

lemma matches_every:
  "matches lc d ts =
     (\<lambda>n. list_all (\<lambda>t. str_includes (lc (ntext n)) t \<or> str_includes (lc (d (createdAt n))) t) ts)"
  by (rule ext) (simp add: matches_def list_all_iff includes_sublist)

lemma matches_joined:
  "matches lc d (searchTerms lc term) =
     (\<lambda>n. list_all (str_includes (lc (ntext n) @ '' '' @ lc (d (createdAt n))))
            (searchTerms lc term))"
proof (rule ext)
  fix n
  show "matches lc d (searchTerms lc term) n =
        list_all (str_includes (lc (ntext n) @ '' '' @ lc (d (createdAt n)))) (searchTerms lc term)"
    using searchTerms_no_space [of _ lc "term"]
    by (auto simp: list_all_iff includes_sublist matches_def sublist_separated)
qed

lemma filterNotes_matches:
  assumes "lc [] = []"
  shows "filterNotes lc d ns term = filter (matches lc d (searchTerms lc term)) ns"
proof (cases "term = []")
  case True
  with assms have "searchTerms lc term = []" by (simp add: searchTerms_empty_term)
  with True show ?thesis by (simp add: filterNotes_def matches_Nil)
next
  case False
  then show ?thesis by (simp add: filterNotes_def matches_every)
qed

lemma filteredNotes_matches:
  "filteredNotes lc d ns term = filter (matches lc d (searchTerms lc term)) ns"
proof (cases "searchTerms lc term = []")
  case True
  then show ?thesis by (simp add: filteredNotes_def matches_Nil)
next
  case False
  then show ?thesis by (simp add: filteredNotes_def matches_joined)
qed

lemma lower_examples:
  "asciiLower [] = []"
  "asciiLower ''MILK 11/2'' = ''milk 11/2''"
  "asciiLower ''11/3 Mum'' = ''11/3 mum''"
  "asciiLower ''Buy Milk'' = ''buy milk''"
  "asciiLower ''Call mum'' = ''call mum''"
  "asciiLower ''11/2/2026'' = ''11/2/2026''"
  "asciiLower ''11/3/2026'' = ''11/3/2026''"
  by (simp_all add: asciiLower_def asciiLowerChar_def)

lemma searchTerms_examples:
  "searchTerms asciiLower ''MILK 11/2'' = [''milk'', ''11/2'']"
  "searchTerms asciiLower ''11/3 Mum'' = [''11/3'', ''mum'']"
  by (simp_all add: searchTerms_def lower_examples)

lemma filterNotes_example:
  "filterNotes asciiLower (\<lambda>d. d) [example_note1, example_note2] ''MILK 11/2'' = [example_note1]"
  by (simp add: filterNotes_def searchTerms_examples example_note1_def example_note2_def
      lower_examples)

lemma filteredNotes_example:
  "filteredNotes asciiLower (\<lambda>d. d) [example_note1, example_note2] ''11/3 Mum'' = [example_note2]"
  by (simp add: filteredNotes_def searchTerms_examples example_note1_def example_note2_def
      lower_examples)

text \<open>
  Claim C1.  For every list of notes and every filter term, the filter of either client
  returns exactly the notes that match: with the search terms being the non-empty pieces of
  the lowercased term split at spaces, a note is kept if and only if every search term is a
  substring of its lowercased text or of its lowercased date string; and when there is no
  search term the list is returned unchanged.  (The lowercasing of the runtime maps the
  empty string to the empty string.)
\<close>

theorem filter_keeps_exactly_the_matches:
  assumes "toLowerCase [] = []"
  shows "filterNotes toLowerCase toLocaleDateString ns term
           = filter (matches toLowerCase toLocaleDateString (searchTerms toLowerCase term)) ns
       \<and> filteredNotes toLowerCase toLocaleDateString ns term
           = filter (matches toLowerCase toLocaleDateString (searchTerms toLowerCase term)) ns
       \<and> (searchTerms toLowerCase term = [] \<longrightarrow>
            filterNotes toLowerCase toLocaleDateString ns term = ns
          \<and> filteredNotes toLowerCase toLocaleDateString ns term = ns)"
  using assms by (simp add: filterNotes_matches filteredNotes_matches matches_Nil)

theorem filter_keeps_exactly_the_matches_witness:
  "asciiLower [] = []
   \<and> filter (matches asciiLower (\<lambda>d. d) (searchTerms asciiLower ''MILK 11/2''))
        [example_note1, example_note2] = [example_note1]"
proof -
  have h: "asciiLower [] = []" by (simp add: lower_examples)
  from filter_keeps_exactly_the_matches
         [of asciiLower "\<lambda>d. d" "[example_note1, example_note2]" "''MILK 11/2''", OF h]
  have "filter (matches asciiLower (\<lambda>d. d) (searchTerms asciiLower ''MILK 11/2''))
          [example_note1, example_note2]
        = filterNotes asciiLower (\<lambda>d. d) [example_note1, example_note2] ''MILK 11/2''"
    by simp
  with h show ?thesis by (simp only: filterNotes_example)
qed

text \<open>
  Claim C6.  The two clients filter alike: for every list of notes and every filter term,
  the signal-based filter (each search term looked up in the text, a space and the date
  string joined) and the stream-based filter (each search term looked up in the text or in
  the date string) give the same list.
\<close>

theorem filters_agree:
  assumes "toLowerCase [] = []"
  shows "filteredNotes toLowerCase toLocaleDateString ns term
         = filterNotes toLowerCase toLocaleDateString ns term"
  using assms by (simp add: filterNotes_matches filteredNotes_matches)

theorem filters_agree_witness:
  "asciiLower [] = []
   \<and> filterNotes asciiLower (\<lambda>d. d) [example_note1, example_note2] ''11/3 Mum''
       = [example_note2]"
proof -
  have h: "asciiLower [] = []" by (simp add: lower_examples)
  from filters_agree [of asciiLower "\<lambda>d. d" "[example_note1, example_note2]" "''11/3 Mum''", OF h]
  have "filterNotes asciiLower (\<lambda>d. d) [example_note1, example_note2] ''11/3 Mum''
        = filteredNotes asciiLower (\<lambda>d. d) [example_note1, example_note2] ''11/3 Mum''"
    by simp
  with h show ?thesis by (simp only: filteredNotes_example)
qed

section \<open>The server\<close>

text \<open>
  Claim C2 says that \<^verbatim>\<open>list\<close> returns the notes of the person for every username string.
  For a username that contains the character U+0000 it returns nothing: it fails.
\<close>

theorem list_fails_for_username_with_nul:
  "noteRouter_list int [example_note1, example_note2] [CHR ''a'', CHR 0x00]
     = Inl INTERNAL_SERVER_ERROR"
  by (simp add: noteRouter_list_def)

text \<open>
  Claim C2, amended.  For every username string without the character U+0000, \<^verbatim>\<open>list\<close>
  returns, in storage order, exactly the stored notes whose person equals the username, each
  with its id converted to a number and its other fields as stored; for a username with
  that character it fails with \<^verbatim>\<open>INTERNAL_SERVER_ERROR\<close>.
\<close>

theorem list_returns_the_persons_notes:
  "(CHR 0x00 \<notin> set p \<longrightarrow>
      (\<exists>rs. noteRouter_list toNumber db p = Inr rs
          \<and> list_all2 (\<lambda>r n. nid r = toNumber (nid n) \<and> ntext r = ntext n
                            \<and> person r = person n \<and> createdAt r = createdAt n)
              rs (filter (\<lambda>n. person n = p) db)
          \<and> (\<forall>r \<in> set rs. person r = p)))
 \<and> (CHR 0x00 \<in> set p \<longrightarrow> noteRouter_list toNumber db p = Inl INTERNAL_SERVER_ERROR)"
  by (auto simp: noteRouter_list_def list_all2_map1 intro: list_all2_refl)

theorem list_returns_the_persons_notes_witness:
  "CHR 0x00 \<notin> set ''ann''
   \<and> noteRouter_list int [example_note1, example_note2] ''ann''
       = Inr [\<lparr>nid = 2, ntext = ''Call mum'', person = ''ann'', createdAt = ''11/3/2026''\<rparr>]
   \<and> list_all2 (\<lambda>r n. nid r = int (nid n) \<and> ntext r = ntext n
                      \<and> person r = person n \<and> createdAt r = createdAt n)
        [\<lparr>nid = 2, ntext = ''Call mum'', person = ''ann'', createdAt = ''11/3/2026''\<rparr>]
        (filter (\<lambda>n. person n = ''ann'') [example_note1, example_note2])"
proof -
  have h: "CHR 0x00 \<notin> set ''ann''" by simp
  have v: "noteRouter_list int [example_note1, example_note2] ''ann''
       = Inr [\<lparr>nid = 2, ntext = ''Call mum'', person = ''ann'', createdAt = ''11/3/2026''\<rparr>]"
    by (simp add: noteRouter_list_def example_note1_def example_note2_def)
  from list_returns_the_persons_notes [of "''ann''" int "[example_note1, example_note2]"] h
  obtain rs where rs: "noteRouter_list int [example_note1, example_note2] ''ann'' = Inr rs"
    "list_all2 (\<lambda>r n. nid r = int (nid n) \<and> ntext r = ntext n
                      \<and> person r = person n \<and> createdAt r = createdAt n)
        rs (filter (\<lambda>n. person n = ''ann'') [example_note1, example_note2])"
    by auto
  from rs(1) v have "rs = [\<lparr>nid = 2, ntext = ''Call mum'', person = ''ann'',
                            createdAt = ''11/3/2026''\<rparr>]"
    by simp
  with rs(2) h v show ?thesis by simp
qed

text \<open>
  Claim C7.  For every identifier, \<^verbatim>\<open>remove\<close> deletes exactly the stored notes with that
  id and returns them; the notes with another id stay as they were, in their order, and
  nothing else is lost or added.
\<close>

theorem remove_deletes_exactly_the_id:
  "noteRouter_remove db i = (db', deleted) \<Longrightarrow>
     set deleted = {n \<in> set db. nid n = i}
   \<and> set db' = {n \<in> set db. nid n \<noteq> i}
   \<and> filter (\<lambda>n. nid n \<noteq> i) db' = filter (\<lambda>n. nid n \<noteq> i) db
   \<and> mset db' + mset deleted = mset db"
  by (auto simp: noteRouter_remove_def)

theorem remove_deletes_exactly_the_id_witness:
  "noteRouter_remove [example_note1, example_note2] 1 = ([example_note2], [example_note1])
   \<and> (set [example_note1] = {n \<in> set [example_note1, example_note2]. nid n = 1}
      \<and> set [example_note2] = {n \<in> set [example_note1, example_note2]. nid n \<noteq> 1}
      \<and> filter (\<lambda>n. nid n \<noteq> 1) [example_note2]
          = filter (\<lambda>n. nid n \<noteq> 1) [example_note1, example_note2]
      \<and> mset [example_note2] + mset [example_note1] = mset [example_note1, example_note2])"
proof -
  have h: "noteRouter_remove [example_note1, example_note2] 1 = ([example_note2], [example_note1])"
    by (simp add: noteRouter_remove_def example_note1_def example_note2_def)
  show ?thesis by (rule conjI [OF h remove_deletes_exactly_the_id [OF h]])
qed

section \<open>The clients: unfolding the methods\<close>

lemmas rx_defs = setLoading_def resetRefreshTimer_def rx_loadNotes_def rx_setUsername_def
  rx_addNote_def rx_deleteNote_def rx_setFilterTerm_def rx_load_next_def rx_load_error_def
  rx_add_next_def rx_add_error_def rx_remove_next_def rx_remove_error_def rx_ngOnDestroy_def
  rx_elapse_def

lemmas sg_defs = showRefresh_computation_def showRefresh_update_def sg_timeout_def
  resource_load_def resource_reload_def resource_destroy_def sg_setUsername_def sg_loadNotes_def
  sg_addNote_def sg_deleteNote_def sg_setFilterTerm_def sg_add_next_def sg_add_error_def
  sg_remove_next_def sg_remove_error_def sg_ngOnDestroy_def sg_elapse_def sg_render_def
  sg_step_def

section \<open>A pipeline that has failed stays closed\<close>

lemma rx_loadSub_closed_step: "\<not> rx_loadSub r \<Longrightarrow> \<not> rx_loadSub (rx_step r e)"
  by (cases e) (simp_all add: rx_defs Let_def split: option.splits)

lemma rx_addSub_closed_step: "\<not> rx_addSub r \<Longrightarrow> \<not> rx_addSub (rx_step r e)"
  by (cases e) (simp_all add: rx_defs Let_def split: option.splits)

lemma rx_removeSub_closed_step: "\<not> rx_removeSub r \<Longrightarrow> \<not> rx_removeSub (rx_step r e)"
  by (cases e) (simp_all add: rx_defs Let_def split: option.splits)

lemma rx_loadSub_closed: "\<not> rx_loadSub r \<Longrightarrow> \<not> rx_loadSub (foldl rx_step r es)"
  by (induction es arbitrary: r) (simp_all add: rx_loadSub_closed_step)

lemma rx_addSub_closed: "\<not> rx_addSub r \<Longrightarrow> \<not> rx_addSub (foldl rx_step r es)"
  by (induction es arbitrary: r) (simp_all add: rx_addSub_closed_step)

lemma rx_removeSub_closed: "\<not> rx_removeSub r \<Longrightarrow> \<not> rx_removeSub (foldl rx_step r es)"
  by (induction es arbitrary: r) (simp_all add: rx_removeSub_closed_step)

lemma rx_error_closes:
  "rx_loadReq r \<noteq> None \<Longrightarrow> \<not> rx_loadSub (rx_step r (ListErr m))"
  "rx_addReq r \<noteq> None \<Longrightarrow> \<not> rx_addSub (rx_step r (CreateErr m))"
  "rx_removeReq r \<noteq> None \<Longrightarrow> \<not> rx_removeSub (rx_step r (RemoveErr m))"
  by (auto simp: rx_defs)

lemma rx_closed_call_ignored:
  "\<not> rx_loadSub r \<Longrightarrow> rx_step r LoadNotes = r"
  "\<not> rx_addSub r \<Longrightarrow> rx_step r (AddNote n) = r"
  "\<not> rx_removeSub r \<Longrightarrow> rx_step r (DeleteNote i) = r"
  by (simp_all add: rx_defs)

lemma sg_step_rendered:
  "sg_destroyed (sg_step s e) \<or> showRefresh_source (sg_step s e) = Some (res_status (sg_step s e))"
  by (simp add: sg_step_def sg_render_def showRefresh_update_def showRefresh_computation_def Let_def)

lemma sg_run_rendered:
  "sg_destroyed s \<or> showRefresh_source s = Some (res_status s) \<Longrightarrow>
   sg_destroyed (foldl sg_step s es) \<or>
   showRefresh_source (foldl sg_step s es) = Some (res_status (foldl sg_step s es))"
  by (induction es rule: rev_induct) (simp_all add: sg_step_rendered)

lemma sg_render_rendered:
  "sg_destroyed s \<or> showRefresh_source s = Some (res_status s) \<Longrightarrow> sg_render s = s"
  by (auto simp: sg_render_def showRefresh_update_def)

lemma sg_addSub_closed_step: "\<not> sg_addSub s \<Longrightarrow> \<not> sg_addSub (sg_step s e)"
  by (cases e) (simp_all add: sg_defs Let_def split: option.splits)

lemma sg_removeSub_closed_step: "\<not> sg_removeSub s \<Longrightarrow> \<not> sg_removeSub (sg_step s e)"
  by (cases e) (simp_all add: sg_defs Let_def split: option.splits)

lemma sg_addSub_closed: "\<not> sg_addSub s \<Longrightarrow> \<not> sg_addSub (foldl sg_step s es)"
  by (induction es arbitrary: s) (simp_all add: sg_addSub_closed_step)

lemma sg_removeSub_closed: "\<not> sg_removeSub s \<Longrightarrow> \<not> sg_removeSub (foldl sg_step s es)"
  by (induction es arbitrary: s) (simp_all add: sg_removeSub_closed_step)

lemma sg_error_closes:
  "sg_addReq s \<noteq> None \<Longrightarrow> \<not> sg_addSub (sg_step s (CreateErr m))"
  "sg_removeReq s \<noteq> None \<Longrightarrow> \<not> sg_removeSub (sg_step s (RemoveErr m))"
  by (auto simp: sg_defs Let_def)

lemma sg_closed_call_ignored:
  assumes "sg_destroyed s \<or> showRefresh_source s = Some (res_status s)"
  shows "\<not> sg_addSub s \<Longrightarrow> sg_step s (AddNote n) = s"
    and "\<not> sg_removeSub s \<Longrightarrow> sg_step s (DeleteNote i) = s"
  using assms by (simp_all add: sg_step_def sg_addNote_def sg_deleteNote_def sg_render_rendered)

text \<open>
  Claim C8.  In both clients, once the remote call in flight in a subscribed pipeline fails
  (load, add-note and remove-note in the stream-based client; add-note and remove-note in the
  signal-based client), the subscription is closed, and after any further events a call of
  the corresponding operation leaves the whole state as it is, the list of sent requests
  included.
\<close>

theorem errored_pipeline_stays_closed:
  "(rx_loadReq r \<noteq> None \<longrightarrow>
      (let r' = foldl rx_step (rx_step r (ListErr m)) es
       in \<not> rx_loadSub r' \<and> rx_step r' LoadNotes = r'))
 \<and> (rx_addReq r \<noteq> None \<longrightarrow>
      (let r' = foldl rx_step (rx_step r (CreateErr m)) es
       in \<not> rx_addSub r' \<and> rx_step r' (AddNote n) = r'))
 \<and> (rx_removeReq r \<noteq> None \<longrightarrow>
      (let r' = foldl rx_step (rx_step r (RemoveErr m)) es
       in \<not> rx_removeSub r' \<and> rx_step r' (DeleteNote i) = r'))
 \<and> (sg_addReq s \<noteq> None \<longrightarrow>
      (let s' = foldl sg_step (sg_step s (CreateErr m)) es
       in \<not> sg_addSub s' \<and> sg_step s' (AddNote n) = s'))
 \<and> (sg_removeReq s \<noteq> None \<longrightarrow>
      (let s' = foldl sg_step (sg_step s (RemoveErr m)) es
       in \<not> sg_removeSub s' \<and> sg_step s' (DeleteNote i) = s'))"
proof -
  have rendered: "sg_destroyed (foldl sg_step (sg_step s e) es) \<or>
      showRefresh_source (foldl sg_step (sg_step s e) es)
        = Some (res_status (foldl sg_step (sg_step s e) es))" for e
    by (rule sg_run_rendered [OF sg_step_rendered])
  show ?thesis
    unfolding Let_def
    by (intro conjI impI rx_loadSub_closed rx_addSub_closed rx_removeSub_closed
          sg_addSub_closed sg_removeSub_closed rx_error_closes sg_error_closes
          rx_closed_call_ignored sg_closed_call_ignored rendered)
qed


theorem errored_pipeline_stays_closed_witness:
  "rx_loadReq (rx_run [AddNote ''a'', DeleteNote 1] :: (nat, string) rx_state) \<noteq> None
 \<and> rx_addReq (rx_run [AddNote ''a'', DeleteNote 1] :: (nat, string) rx_state) \<noteq> None
 \<and> rx_removeReq (rx_run [AddNote ''a'', DeleteNote 1] :: (nat, string) rx_state) \<noteq> None
 \<and> sg_addReq (sg_run [AddNote ''a'', DeleteNote 1] :: (nat, string) sg_state) \<noteq> None
 \<and> sg_removeReq (sg_run [AddNote ''a'', DeleteNote 1] :: (nat, string) sg_state) \<noteq> None
 \<and> rx_loadNotes (foldl rx_step (rx_step (rx_run [AddNote ''a'', DeleteNote 1]) (ListErr ''down''))
        [SetUsername ''bob'', LoadNotes])
     = (foldl rx_step (rx_step (rx_run [AddNote ''a'', DeleteNote 1]) (ListErr ''down''))
        [SetUsername ''bob'', LoadNotes] :: (nat, string) rx_state)
 \<and> sg_step (foldl sg_step (sg_step (sg_run [AddNote ''a'', DeleteNote 1]) (CreateErr ''down''))
        [SetUsername ''bob'', LoadNotes]) (AddNote ''b'')
     = (foldl sg_step (sg_step (sg_run [AddNote ''a'', DeleteNote 1]) (CreateErr ''down''))
        [SetUsername ''bob'', LoadNotes] :: (nat, string) sg_state)"
proof -
  have h: "rx_loadReq (rx_run [AddNote ''a'', DeleteNote 1] :: (nat, string) rx_state) \<noteq> None"
    "rx_addReq (rx_run [AddNote ''a'', DeleteNote 1] :: (nat, string) rx_state) \<noteq> None"
    "rx_removeReq (rx_run [AddNote ''a'', DeleteNote 1] :: (nat, string) rx_state) \<noteq> None"
    "sg_addReq (sg_run [AddNote ''a'', DeleteNote 1] :: (nat, string) sg_state) \<noteq> None"
    "sg_removeReq (sg_run [AddNote ''a'', DeleteNote 1] :: (nat, string) sg_state) \<noteq> None"
    by (simp_all add: rx_run_def rx_constructor_def rx_defs sg_run_def sg_constructor_def sg_defs
        Let_def)
  from h errored_pipeline_stays_closed
      [of "rx_run [AddNote ''a'', DeleteNote 1] :: (nat, string) rx_state" "''down''"
          "[SetUsername ''bob'', LoadNotes]" "''b''" 2
          "sg_run [AddNote ''a'', DeleteNote 1] :: (nat, string) sg_state"]
  show ?thesis by (simp add: Let_def)
qed

section \<open>The signal-based client: a failed mutation leaves its loading flag set\<close>

lemma sg_inflight_loading_step:
  assumes "(sg_addReq s \<noteq> None \<longrightarrow> loadingCreate s) \<and> (sg_removeReq s \<noteq> None \<longrightarrow> loadingDelete s)"
  shows "(sg_addReq (sg_step s e) \<noteq> None \<longrightarrow> loadingCreate (sg_step s e))
       \<and> (sg_removeReq (sg_step s e) \<noteq> None \<longrightarrow> loadingDelete (sg_step s e))"
  using assms by (cases e) (auto simp: sg_defs Let_def split: option.splits)

lemma sg_inflight_loading:
  "(sg_addReq (sg_run es) \<noteq> None \<longrightarrow> loadingCreate (sg_run es))
 \<and> (sg_removeReq (sg_run es) \<noteq> None \<longrightarrow> loadingDelete (sg_run es))"
proof (induction es rule: rev_induct)
  case Nil
  show ?case by (simp add: sg_run_def sg_constructor_def sg_defs Let_def)
next
  case (snoc e es)
  from sg_inflight_loading_step [OF snoc.IH, of e]
  show ?case by (simp add: sg_run_def)
qed

lemma sg_create_stuck_step:
  "\<not> sg_addSub s \<and> sg_addReq s = None \<and> loadingCreate s \<Longrightarrow>
   \<not> sg_addSub (sg_step s e) \<and> sg_addReq (sg_step s e) = None \<and> loadingCreate (sg_step s e)"
  by (cases e) (auto simp: sg_defs Let_def split: option.splits)

lemma sg_delete_stuck_step:
  "\<not> sg_removeSub s \<and> sg_removeReq s = None \<and> loadingDelete s \<Longrightarrow>
   \<not> sg_removeSub (sg_step s e) \<and> sg_removeReq (sg_step s e) = None \<and> loadingDelete (sg_step s e)"
  by (cases e) (auto simp: sg_defs Let_def split: option.splits)

lemma sg_create_stuck:
  "\<not> sg_addSub s \<and> sg_addReq s = None \<and> loadingCreate s \<Longrightarrow>
   loadingCreate (foldl sg_step s es)"
proof (induction es arbitrary: s)
  case Nil
  then show ?case by simp
next
  case (Cons e es)
  from Cons.IH [OF sg_create_stuck_step [OF Cons.prems]] show ?case by simp
qed

lemma sg_delete_stuck:
  "\<not> sg_removeSub s \<and> sg_removeReq s = None \<and> loadingDelete s \<Longrightarrow>
   loadingDelete (foldl sg_step s es)"
proof (induction es arbitrary: s)
  case Nil
  then show ?case by simp
next
  case (Cons e es)
  from Cons.IH [OF sg_delete_stuck_step [OF Cons.prems]] show ?case by simp
qed

lemma sg_create_error_step:
  "sg_addReq s \<noteq> None \<Longrightarrow> loadingCreate s \<Longrightarrow>
   errorCreate (sg_step s (CreateErr m)) = Some m \<and>
   \<not> sg_addSub (sg_step s (CreateErr m)) \<and> sg_addReq (sg_step s (CreateErr m)) = None \<and>
   loadingCreate (sg_step s (CreateErr m))"
  by (auto simp: sg_defs Let_def)

lemma sg_delete_error_step:
  "sg_removeReq s \<noteq> None \<Longrightarrow> loadingDelete s \<Longrightarrow>
   errorDelete (sg_step s (RemoveErr m)) = Some m \<and>
   \<not> sg_removeSub (sg_step s (RemoveErr m)) \<and> sg_removeReq (sg_step s (RemoveErr m)) = None \<and>
   loadingDelete (sg_step s (RemoveErr m))"
  by (auto simp: sg_defs Let_def)

text \<open>
  Claim C9.  In the signal-based client, when the create (delete) in flight fails, the error
  callback stores the message in \<^verbatim>\<open>errorCreate\<close> (\<^verbatim>\<open>errorDelete\<close>) and leaves
  \<^verbatim>\<open>loadingCreate\<close> (\<^verbatim>\<open>loadingDelete\<close>) set, so that \<^verbatim>\<open>loading\<close> is true after every
  further sequence of events.
\<close>

theorem failed_mutation_leaves_loading_on:
  "(sg_addReq (sg_run es) \<noteq> None \<longrightarrow>
      (let s' = sg_step (sg_run es) (CreateErr m)
       in errorCreate s' = Some m \<and> loadingCreate s' \<and> sg_loading (foldl sg_step s' es')))
 \<and> (sg_removeReq (sg_run es) \<noteq> None \<longrightarrow>
      (let s' = sg_step (sg_run es) (RemoveErr m)
       in errorDelete s' = Some m \<and> loadingDelete s' \<and> sg_loading (foldl sg_step s' es')))"
proof (intro conjI impI)
  assume a: "sg_addReq (sg_run es) \<noteq> None"
  with sg_inflight_loading [of es] have "loadingCreate (sg_run es)" by simp
  from sg_create_error_step [OF a this, of m]
  show "let s' = sg_step (sg_run es) (CreateErr m)
        in errorCreate s' = Some m \<and> loadingCreate s' \<and> sg_loading (foldl sg_step s' es')"
    by (simp add: Let_def sg_loading_def sg_create_stuck)
next
  assume a: "sg_removeReq (sg_run es) \<noteq> None"
  with sg_inflight_loading [of es] have "loadingDelete (sg_run es)" by simp
  from sg_delete_error_step [OF a this, of m]
  show "let s' = sg_step (sg_run es) (RemoveErr m)
        in errorDelete s' = Some m \<and> loadingDelete s' \<and> sg_loading (foldl sg_step s' es')"
    by (simp add: Let_def sg_loading_def sg_delete_stuck)
qed

theorem failed_mutation_leaves_loading_on_witness:
  "sg_addReq (sg_run [AddNote ''a'', DeleteNote 1] :: (nat, string) sg_state) \<noteq> None
 \<and> sg_removeReq (sg_run [AddNote ''a'', DeleteNote 1] :: (nat, string) sg_state) \<noteq> None
 \<and> errorCreate (sg_step (sg_run [AddNote ''a'', DeleteNote 1] :: (nat, string) sg_state)
                   (CreateErr ''down'')) = Some ''down''
 \<and> sg_loading (foldl sg_step
        (sg_step (sg_run [AddNote ''a'', DeleteNote 1] :: (nat, string) sg_state)
           (CreateErr ''down''))
        [ListOk [], Elapse 5000])
 \<and> sg_loading (foldl sg_step
        (sg_step (sg_run [AddNote ''a'', DeleteNote 1] :: (nat, string) sg_state)
           (RemoveErr ''down''))
        [ListOk [], Elapse 5000])"
proof -
  have h: "sg_addReq (sg_run [AddNote ''a'', DeleteNote 1] :: (nat, string) sg_state) \<noteq> None"
    "sg_removeReq (sg_run [AddNote ''a'', DeleteNote 1] :: (nat, string) sg_state) \<noteq> None"
    by (simp_all add: sg_run_def sg_constructor_def sg_defs Let_def)
  from h failed_mutation_leaves_loading_on
      [of "[AddNote ''a'', DeleteNote 1] :: (nat, string) event list" "''down''"
          "[ListOk [], Elapse 5000]"]
  show ?thesis by (simp add: Let_def)
qed

section \<open>The signal-based client: the notes signal\<close>

lemma sg_no_value_step:
  "res_value s = None \<Longrightarrow> (\<forall>ns. e \<noteq> ListOk ns) \<Longrightarrow> res_value (sg_step s e) = None"
  by (cases e) (auto simp: sg_defs Let_def split: option.splits)

lemma sg_no_value_before_first_result:
  "\<forall>e \<in> set es. \<forall>ns. e \<noteq> ListOk ns \<Longrightarrow> res_value (sg_run es) = None"
proof (induction es rule: rev_induct)
  case Nil
  show ?case by (simp add: sg_run_def sg_constructor_def sg_defs Let_def)
next
  case (snoc e es)
  then have "res_value (sg_run es) = None" and "\<forall>ns. e \<noteq> ListOk ns" by simp_all
  then have "res_value (sg_step (sg_run es) e) = None" by (rule sg_no_value_step)
  then show ?case by (simp add: sg_run_def)
qed

lemma sg_no_value_after_error:
  "res_req s \<noteq> None \<Longrightarrow> res_value (sg_step s (ListErr m)) = None"
  by (auto simp: sg_defs Let_def)

text \<open>
  Claim C10.  In the signal-based client \<^verbatim>\<open>notes()\<close> is always a list: whenever the
  resource has no value it is the empty list; this is the case as long as no fetch has
  resolved, and after a fetch has failed; and \<^verbatim>\<open>totalNotesCount()\<close> is the length of
  \<^verbatim>\<open>notes()\<close>.
\<close>

theorem notes_signal_defaults_to_empty:
  "sg_totalNotesCount s = length (sg_notes s)
 \<and> (res_value s = None \<longrightarrow> sg_notes s = [])
 \<and> ((\<forall>e \<in> set es. \<forall>ns. e \<noteq> ListOk ns) \<longrightarrow> sg_notes (sg_run es) = [])
 \<and> (res_req s \<noteq> None \<longrightarrow> sg_notes (sg_step s (ListErr m)) = [])"
  by (simp add: sg_totalNotesCount_def sg_notes_def sg_no_value_before_first_result
      sg_no_value_after_error)

theorem notes_signal_defaults_to_empty_witness:
  "sg_notes (sg_run [SetUsername ''bob'', AddNote ''a''] :: (nat, string) sg_state) = []
 \<and> res_req (sg_run [ListOk [example_note1], LoadNotes]) \<noteq> None
 \<and> sg_notes (sg_step (sg_run [ListOk [example_note1], LoadNotes]) (ListErr ''down'')) = []
 \<and> sg_totalNotesCount (sg_run [ListOk [example_note1], LoadNotes])
     = length (sg_notes (sg_run [ListOk [example_note1], LoadNotes]))"
proof -
  have h: "\<forall>e \<in> set [SetUsername ''bob'', AddNote ''a'' :: (nat, string) event]. \<forall>ns. e \<noteq> ListOk ns"
    "res_req (sg_run [ListOk [example_note1], LoadNotes]) \<noteq> None"
    by (simp_all add: sg_run_def sg_constructor_def sg_defs Let_def)
  from h notes_signal_defaults_to_empty
      [of "sg_run [ListOk [example_note1], LoadNotes]"
          "[SetUsername ''bob'', AddNote ''a''] :: (nat, string) event list" "''down''"]
  show ?thesis by simp
qed

section \<open>Failures of the remote calls\<close>































section \<open>Reloading after a mutation\<close>

text \<open>
  Claim C5.  Whenever a create or delete succeeds, a reload of the list is triggered.  The
  success callbacks of both clients ask for it (\<^verbatim>\<open>this._loadNotes$.next()\<close>,
  \<^verbatim>\<open>this.loadNotes()\<close>), but in the stream-based client the request is lost once a failed
  fetch has closed the load pipeline: after the first fetch has failed, a create (or
  delete) that succeeds sends no list request, no fetch is in flight and the list stays as
  it was.  On the same events the signal-based client does send the list request.
\<close>

theorem no_reload_after_create_when_load_pipeline_closed:
  "rx_addReq (rx_run [ListErr ''down'', AddNote ''a''] :: (nat, string) rx_state) \<noteq> None
 \<and> rx_sent (rx_run [ListErr ''down'', AddNote ''a'', CreateOk] :: (nat, string) rx_state)
     = [ListReq [], CreateReq ''a'' []]
 \<and> rx_loadReq (rx_run [ListErr ''down'', AddNote ''a'', CreateOk] :: (nat, string) rx_state)
     = None
 \<and> rx_notes (rx_run [ListErr ''down'', AddNote ''a'', CreateOk] :: (nat, string) rx_state) = []
 \<and> rx_removeReq (rx_run [ListErr ''down'', DeleteNote 1] :: (nat, string) rx_state) \<noteq> None
 \<and> rx_sent (rx_run [ListErr ''down'', DeleteNote 1, RemoveOk] :: (nat, string) rx_state)
     = [ListReq [], RemoveReq 1]
 \<and> sg_sent (sg_run [ListErr ''down'', AddNote ''a'', CreateOk] :: (nat, string) sg_state)
     = [ListReq [], CreateReq ''a'' [], ListReq []]
 \<and> sg_sent (sg_run [ListErr ''down'', DeleteNote 1, RemoveOk] :: (nat, string) sg_state)
     = [ListReq [], RemoveReq 1, ListReq []]"
  by (simp add: rx_run_def rx_constructor_def rx_defs sg_run_def sg_constructor_def sg_defs
      Let_def)

section \<open>The refresh timeout and teardown\<close>

text \<open>
  Claim C4 says that each client clears its timeout on teardown.  The stream-based client
  does (\<^verbatim>\<open>clearTimeout\<close> in \<^verbatim>\<open>ngOnDestroy\<close>).  The signal-based client does not: after
  a fetch has resolved and the component has been destroyed, its timeout is still pending,
  and when the 4000 ms have passed its callback sets \<^verbatim>\<open>showRefresh\<close>.
\<close>

theorem signal_client_timeout_survives_teardown:
  "timerId (sg_run [ListOk [], Destroy] :: (nat, string) sg_state) = Some 4000
 \<and> showRefresh_value (sg_run [ListOk [], Destroy, Elapse 4000] :: (nat, string) sg_state)
 \<and> rx_refreshTimer (rx_run [ListOk [], Destroy] :: (nat, string) rx_state) = None
 \<and> \<not> rx_showRefresh (rx_run [ListOk [], Destroy, Elapse 4000] :: (nat, string) rx_state)"
  by (simp add: rx_run_def rx_constructor_def rx_defs sg_run_def sg_constructor_def sg_defs Let_def)

end
